theory Spec2Isabelle
  imports Main
begin

section \<open>Go values used by app.go\<close>

text \<open>
  A Go \<open>error\<close> is an interface with one method, \<open>Error() string\<close>. The dispatch
  engine only ever tests an error against \<open>nil\<close> and reads its text, so an error value
  is represented by that text, and a possibly-nil error by \<open>error option\<close>
  (\<open>None\<close> is \<open>nil\<close>).
\<close>

datatype error = errorString string

fun Error :: "error \<Rightarrow> string" where
  "Error (errorString s) = s"

definition errors_New :: "string \<Rightarrow> error" where
  "errors_New text_in = errorString text_in"

text \<open>
  \<open>net/textproto.Error\<close> of the Go standard library:
  \<^verbatim>\<open>type Error struct { Code int; Msg string }\<close> with
  \<^verbatim>\<open>func (e *Error) Error() string { return fmt.Sprintf("%03d %s", e.Code, e.Msg) }\<close>.
  The verb \<open>%03d\<close> prints a decimal integer padded with zeros to width three, the sign
  counting towards the width. A Go \<open>int\<close> status code is only ever compared and
  printed, never computed with, so it is an \<open>int\<close> here.
\<close>

record textproto_Error =
  Code :: int
  Msg :: string

fun decimal :: "nat \<Rightarrow> string" where
  "decimal n =
     (if n < 10 then [''0123456789'' ! n]
      else decimal (n div 10) @ [''0123456789'' ! (n mod 10)])"

declare decimal.simps [simp del]

definition zero_pad :: "nat \<Rightarrow> string \<Rightarrow> string" where
  "zero_pad w s = replicate (w - length s) (CHR ''0'') @ s"

definition fmt_03d :: "int \<Rightarrow> string" where
  "fmt_03d i =
     (if i < 0 then ''-'' @ zero_pad 2 (decimal (nat (- i)))
      else zero_pad 3 (decimal (nat i)))"

definition textproto_Error_Error :: "textproto_Error \<Rightarrow> string" where
  "textproto_Error_Error e = fmt_03d (Code e) @ '' '' @ Msg e"

text \<open>\<^verbatim>\<open>func NewError(err error, code int) *textproto.Error\<close>\<close>

definition NewError :: "error \<Rightarrow> int \<Rightarrow> textproto_Error" where
  "NewError err code = \<lparr>Code = code, Msg = Error err\<rparr>"

text \<open>\<^verbatim>\<open>func NewAppError(err string) error\<close>: \<open>fmt.Errorf("[Gear] %s", err)\<close>.\<close>

definition NewAppError :: "string \<Rightarrow> error" where
  "NewAppError err = errorString (''[Gear] '' @ err)"

text \<open>A panic carries the value it was raised with.\<close>

datatype panic = Panic error

section \<open>Context and Response\<close>

text \<open>
  The Context and Response types live in files of the repository that are not among
  the sources read here; app.go uses their fields \<open>Req\<close>, \<open>Res\<close>, \<open>ended\<close>,
  \<open>afterHooks\<close>, \<open>Res.Status\<close>, \<open>Res.finished\<close> and their methods \<open>Reset\<close>,
  \<open>Status\<close>, \<open>String\<close>, \<open>runAfterHooks\<close> and \<open>respond\<close>. The fields are taken
  from app.go; the methods are modelled from the specification, each marked so.

  A Go function value stored in a Context (an after-hook) is a reference to code. The
  Context stores the reference (\<open>hook_ref\<close>); a table \<open>hookOf\<close>, a parameter of the
  engine, gives the behaviour behind each reference.

  The type parameters \<open>'w\<close> and \<open>'r\<close> stand for \<open>http.ResponseWriter\<close> and
  \<open>*http.Request\<close>.
\<close>

type_synonym hook_ref = nat

record 'w Response =
  res :: "'w option"
  Status :: int
  Body :: string
  finished :: bool

record ('w, 'r) Context =
  Req :: "'r option"
  Res :: "'w Response"
  ended :: bool
  afterHooks :: "hook_ref list"

type_synonym ('w, 'r) Middleware = "('w, 'r) Context \<Rightarrow> ('w, 'r) Context \<times> error option"

type_synonym ('w, 'r) Hook = "('w, 'r) Context \<Rightarrow> ('w, 'r) Context"

text \<open>
  \<open>Middleware func(*Context) error\<close> and \<open>Hook func(*Context)\<close> receive the Context
  by reference: the model returns the Context they leave behind. Units, hooks and the
  other collaborators are functions that return; a unit that panics is not modelled.
\<close>

text \<open>
  Modelled from the spec: \<open>NewContext\<close> (missing from the sources), the value the pool
  creates lazily on first demand. Every field has its Go zero value.
\<close>

definition NewContext :: "('w, 'r) Context" where
  "NewContext =
     \<lparr>Req = None, Res = \<lparr>res = None, Status = 0, Body = [], finished = False\<rparr>,
      ended = False, afterHooks = []\<rparr>"

text \<open>
  Modelled from the spec: \<open>Context.Reset\<close> (missing from the sources). Section 3:
  "reset (request/response rebound, \<open>ended\<close> cleared, after-hooks cleared)"; section 9:
  reset on acquire and on release "to prevent state leakage across requests". The
  response rebound to the writer starts afresh: status, body and the finished flag of
  the response served before do not survive.
\<close>

definition Context_Reset :: "'w option \<Rightarrow> 'r option \<Rightarrow> ('w, 'r) Context \<Rightarrow> ('w, 'r) Context" where
  "Context_Reset w r ctx =
     ctx\<lparr>Req := r,
         Res := (Res ctx)\<lparr>res := w, Status := 0, Body := [], finished := False\<rparr>,
         ended := False, afterHooks := []\<rparr>"

text \<open>
  Modelled from the spec: \<open>Context.Status\<close> (missing from the sources). Section 4.3,
  step 4: "set the response status to that code".
\<close>

definition Context_Status :: "int \<Rightarrow> ('w, 'r) Context \<Rightarrow> ('w, 'r) Context" where
  "Context_Status code ctx = ctx\<lparr>Res := (Res ctx)\<lparr>Status := code\<rparr>\<rparr>"

text \<open>
  Modelled from the spec: \<open>Context.String\<close> (missing from the sources). Section 4.3,
  step 6: "write the error's message as the response body".
\<close>

definition Context_String :: "string \<Rightarrow> ('w, 'r) Context \<Rightarrow> ('w, 'r) Context" where
  "Context_String str ctx = ctx\<lparr>Res := (Res ctx)\<lparr>Body := str\<rparr>\<rparr>"

section \<open>The observable state\<close>

text \<open>
  What a request changes outside its Context: the pool \<open>g.pool\<close> (a free list; \<open>Get\<close>
  takes an element or creates one with \<open>New\<close>, \<open>Put\<close> returns one), and the lines
  written to a logger (\<open>Some l\<close> is the application's \<open>ErrorLog\<close>, \<open>None\<close> the
  process-wide logger of package \<open>log\<close>). The field \<open>calls\<close> records, in order, the
  calls the engine makes on its collaborators; it is the observation the properties
  below are stated on and is read by no operation.
\<close>

type_synonym logger = nat

datatype ('w, 'r) event =
    Acquire
  | Rebind "'w option" "'r option"
  | Unit nat
  | AfterHook hook_ref
  | ErrorBody string
  | Flush "'w Response"
  | Release "('w, 'r) Context"

record ('w, 'r) World =
  pool :: "('w, 'r) Context list"
  logged :: "(logger option \<times> string) list"
  calls :: "('w, 'r) event list"

definition pool_Get :: "('w, 'r) World \<Rightarrow> ('w, 'r) Context \<times> ('w, 'r) World" where
  "pool_Get s =
     (case pool s of
        [] \<Rightarrow> (NewContext, s\<lparr>calls := calls s @ [Acquire]\<rparr>)
      | c # cs \<Rightarrow> (c, s\<lparr>pool := cs, calls := calls s @ [Acquire]\<rparr>))"

definition pool_Put :: "('w, 'r) Context \<Rightarrow> ('w, 'r) World \<Rightarrow> ('w, 'r) World" where
  "pool_Put ctx s = s\<lparr>pool := ctx # pool s, calls := calls s @ [Release ctx]\<rparr>"

section \<open>Gear\<close>

record ('w, 'r) Gear =
  middleware :: "('w, 'r) Middleware list"
  OnError :: "('w, 'r) Context \<Rightarrow> error \<Rightarrow> ('w, 'r) Context \<times> textproto_Error option"
  ErrorLog :: "logger option"

text \<open>
  \<open>New\<close>: no middleware, the default \<open>OnError\<close> hook \<open>NewError(err, 500)\<close>, no
  \<open>ErrorLog\<close>. The hook receives the Context by reference, so in general it returns the
  Context along with its record; the default one leaves it alone.
\<close>

definition New :: "('w, 'r) Gear" where
  "New = \<lparr>middleware = [], OnError = (\<lambda>ctx err. (ctx, Some (NewError err 500))),
          ErrorLog = None\<rparr>"

definition Use :: "('w, 'r) Middleware \<Rightarrow> ('w, 'r) Gear \<Rightarrow> ('w, 'r) Gear" where
  "Use handle g = g\<lparr>middleware := middleware g @ [handle]\<rparr>"

text \<open>\<open>Println\<close> prints a nil error as \<open><nil>\<close> and any other by its \<open>Error()\<close> text.\<close>

definition Println_text :: "error option \<Rightarrow> string" where
  "Println_text err = (case err of None \<Rightarrow> ''<nil>'' | Some e \<Rightarrow> Error e)"

text \<open>\<open>Gear.Error\<close>, lines 155 to 163; the test of the source is \<open>err == nil\<close>.\<close>

definition Gear_Error :: "('w, 'r) Gear \<Rightarrow> error option \<Rightarrow> ('w, 'r) World \<Rightarrow> ('w, 'r) World" where
  "Gear_Error g err s =
     (if err = None then
        (if ErrorLog g \<noteq> None
         then s\<lparr>logged := logged s @ [(ErrorLog g, Println_text err)]\<rparr>
         else s\<lparr>logged := logged s @ [(None, Println_text err)]\<rparr>)
      else s)"

record ('w, 'r) serveHandler =
  app :: "('w, 'r) Gear"
  h_middleware :: "('w, 'r) Middleware list"

definition toServeHandler :: "('w, 'r) Gear \<Rightarrow> panic + ('w, 'r) serveHandler" where
  "toServeHandler g =
     (if length (middleware g) = 0 then Inl (Panic (NewAppError ''no middleware''))
      else Inr \<lparr>app = g, h_middleware = drop 0 (middleware g)\<rparr>)"

section \<open>The dispatch engine: serveHandler.ServeHTTP\<close>

text \<open>
  The loop of lines 175 to 182. The result is the Context after the loop, the value of
  \<open>err\<close> and the call record; \<open>i\<close> is the position of the unit in the chain.
\<close>

fun runMiddleware ::
  "('w, 'r) Middleware list \<Rightarrow> nat \<Rightarrow> ('w, 'r) Context \<Rightarrow> ('w, 'r) event list \<Rightarrow>
   ('w, 'r) Context \<times> error option \<times> ('w, 'r) event list" where
  "runMiddleware [] i ctx tr = (ctx, None, tr)"
| "runMiddleware (handle # rest) i ctx tr =
     (case handle ctx of (ctx', err) \<Rightarrow>
        if err \<noteq> None then (ctx', err, tr @ [Unit i])
        else if ended ctx' \<or> finished (Res ctx') then (ctx', err, tr @ [Unit i])
        else runMiddleware rest (Suc i) ctx' (tr @ [Unit i]))"

text \<open>
  Lines 187 to 192: the \<open>OnError\<close> hook is consulted only for a non-nil error; a
  non-nil record sets the status and replaces the error by
  \<open>errors.New(ctxErr.Error())\<close>.
\<close>

definition normalizeError ::
  "('w, 'r) Gear \<Rightarrow> ('w, 'r) Context \<Rightarrow> error option \<Rightarrow> ('w, 'r) Context \<times> error option" where
  "normalizeError g ctx err =
     (case err of
        None \<Rightarrow> (ctx, None)
      | Some e \<Rightarrow>
          (case OnError g ctx e of
             (ctx', None) \<Rightarrow> (ctx', Some e)
           | (ctx', Some ctxErr) \<Rightarrow>
               (Context_Status (Code ctxErr) ctx',
                Some (errors_New (textproto_Error_Error ctxErr)))))"

text \<open>
  Modelled from the spec: \<open>Context.runAfterHooks\<close> (missing from the sources).
  Section 4.3, step 5: "run all registered after-hooks, in registration order,
  synchronously". The hooks run are those queued when the call is made.
\<close>

fun runHooks ::
  "(hook_ref \<Rightarrow> ('w, 'r) Hook) \<Rightarrow> hook_ref list \<Rightarrow> ('w, 'r) Context \<Rightarrow> ('w, 'r) event list \<Rightarrow>
   ('w, 'r) Context \<times> ('w, 'r) event list" where
  "runHooks hookOf [] ctx tr = (ctx, tr)"
| "runHooks hookOf (k # ks) ctx tr = runHooks hookOf ks (hookOf k ctx) (tr @ [AfterHook k])"

definition runAfterHooks ::
  "(hook_ref \<Rightarrow> ('w, 'r) Hook) \<Rightarrow> ('w, 'r) Context \<Rightarrow> ('w, 'r) event list \<Rightarrow>
   ('w, 'r) Context \<times> ('w, 'r) event list" where
  "runAfterHooks hookOf ctx tr = runHooks hookOf (afterHooks ctx) ctx tr"

text \<open>Lines 194 to 205: the success path or the error path.\<close>

definition finishRequest ::
  "('w, 'r) Gear \<Rightarrow> (hook_ref \<Rightarrow> ('w, 'r) Hook) \<Rightarrow> ('w, 'r) Context \<Rightarrow> error option \<Rightarrow>
   ('w, 'r) World \<Rightarrow> ('w, 'r) Context \<times> ('w, 'r) World" where
  "finishRequest g hookOf ctx err s =
     (case err of
        None \<Rightarrow>
          (case runAfterHooks hookOf ctx (calls s) of
             (ctx', tr) \<Rightarrow> (ctx', s\<lparr>calls := tr\<rparr>))
      | Some e \<Rightarrow>
          (let ctx1 = (if Status (Res ctx) < 400
                       then ctx\<lparr>Res := (Res ctx)\<lparr>Status := 500\<rparr>\<rparr> else ctx);
               s1 = (if Status (Res ctx1) \<ge> 500 then Gear_Error g err s else s);
               ctx2 = Context_String (Error e) ctx1;
               s2 = s1\<lparr>calls := calls s1 @ [ErrorBody (Error e)]\<rparr>;
               ctx3 = ctx2\<lparr>afterHooks := []\<rparr>
           in (ctx3, s2)))"

text \<open>
  \<open>ServeHTTP\<close>, lines 170 to 214, in three parts: lines 171 to 184 (acquire, bind,
  run the chain, set \<open>ended\<close>), lines 186 to 192 (normalization) and lines 194 to 213.
  \<open>Response.respond\<close> is missing from the sources and is a parameter: any function
  from the response to the flushed response and its failure indicator.
\<close>

definition chainStage ::
  "('w, 'r) serveHandler \<Rightarrow> 'w \<Rightarrow> 'r \<Rightarrow> ('w, 'r) World \<Rightarrow>
   ('w, 'r) Context \<times> error option \<times> ('w, 'r) World" where
  "chainStage h w r s =
     (case pool_Get s of (ctx0, s1) \<Rightarrow>
      case runMiddleware (h_middleware h) 0 (Context_Reset (Some w) (Some r) ctx0)
             (calls s1 @ [Rebind (Some w) (Some r)]) of
        (ctx1, err1, tr) \<Rightarrow> (ctx1\<lparr>ended := True\<rparr>, err1, s1\<lparr>calls := tr\<rparr>))"

definition normalizeStage ::
  "('w, 'r) serveHandler \<Rightarrow> 'w \<Rightarrow> 'r \<Rightarrow> ('w, 'r) World \<Rightarrow>
   ('w, 'r) Context \<times> error option \<times> ('w, 'r) World" where
  "normalizeStage h w r s =
     (case chainStage h w r s of (ctx1, err1, s1) \<Rightarrow>
      case normalizeError (app h) ctx1 err1 of (ctx2, err2) \<Rightarrow> (ctx2, err2, s1))"

definition ServeHTTP ::
  "('w, 'r) serveHandler \<Rightarrow> (hook_ref \<Rightarrow> ('w, 'r) Hook) \<Rightarrow>
   ('w Response \<Rightarrow> 'w Response \<times> error option) \<Rightarrow> 'w \<Rightarrow> 'r \<Rightarrow>
   ('w, 'r) World \<Rightarrow> ('w, 'r) World" where
  "ServeHTTP h hookOf respond w r s =
     (case normalizeStage h w r s of (ctx2, err2, s1) \<Rightarrow>
      case finishRequest (app h) hookOf ctx2 err2 s1 of (ctx3, s2) \<Rightarrow>
      case respond (Res ctx3) of (res', err3) \<Rightarrow>
        (let s3 = s2\<lparr>calls := calls s2 @ [Flush (Res ctx3)]\<rparr>;
             s4 = (if err3 \<noteq> None then Gear_Error (app h) err3 s3 else s3);
             s5 = s4\<lparr>calls := calls s4 @ [Rebind None None]\<rparr>
         in pool_Put (Context_Reset None None (ctx3\<lparr>Res := res'\<rparr>)) s5))"

text \<open>
  \<open>WrapHandler\<close> and \<open>WrapHandlerFunc\<close>. An \<open>http.Handler\<close> receives the response
  and the request and may write to the response.
\<close>

type_synonym ('w, 'r) http_Handler = "'w Response \<Rightarrow> 'r option \<Rightarrow> 'w Response"

definition WrapHandler :: "('w, 'r) http_Handler \<Rightarrow> ('w, 'r) Middleware" where
  "WrapHandler h = (\<lambda>ctx. (ctx\<lparr>Res := h (Res ctx) (Req ctx)\<rparr>, None))"

definition WrapHandlerFunc :: "('w, 'r) http_Handler \<Rightarrow> ('w, 'r) Middleware" where
  "WrapHandlerFunc h = (\<lambda>ctx. (ctx\<lparr>Res := h (Res ctx) (Req ctx)\<rparr>, None))"

section \<open>Starting the server\<close>

text \<open>
  \<open>g.Server\<close> with the fields app.go assigns. The transport is external: the
  operations \<open>ListenAndServe\<close>, \<open>ListenAndServeTLS\<close>, \<open>Serve\<close> and \<open>net.Listen\<close>
  are parameters. A \<open>net.Listener\<close> is given by what \<open>Addr()\<close> and \<open>Close()\<close>
  return. The channel \<open>c\<close> of a ServerListener carries one value, the result of
  \<open>g.Server.Serve(l)\<close>, which \<open>Wait\<close> receives.
\<close>

record ('w, 'r) Server =
  Addr :: string
  Handler :: "('w, 'r) serveHandler option"
  srv_ErrorLog :: "logger option"

record net_Listener =
  lis_Addr :: string
  lis_Close :: "error option"

record ServerListener =
  l :: net_Listener
  c :: "error option"

definition Close :: "ServerListener \<Rightarrow> error option" where
  "Close s = lis_Close (l s)"

definition Addr_of :: "ServerListener \<Rightarrow> string" where
  "Addr_of s = lis_Addr (l s)"

definition Wait :: "ServerListener \<Rightarrow> error option" where
  "Wait s = c s"

definition Listen ::
  "('w, 'r) Gear \<Rightarrow> ('w, 'r) Server \<Rightarrow> string \<Rightarrow> (('w, 'r) Server \<Rightarrow> error option) \<Rightarrow>
   panic + (('w, 'r) Server \<times> error option)" where
  "Listen g srv addr ListenAndServe =
     (let srv1 = srv\<lparr>Addr := addr\<rparr> in
      case toServeHandler g of
        Inl p \<Rightarrow> Inl p
      | Inr h \<Rightarrow>
          (let srv2 = srv1\<lparr>Handler := Some h\<rparr>;
               srv3 = (if ErrorLog g \<noteq> None then srv2\<lparr>srv_ErrorLog := ErrorLog g\<rparr> else srv2)
           in Inr (srv3, ListenAndServe srv3)))"

definition ListenTLS ::
  "('w, 'r) Gear \<Rightarrow> ('w, 'r) Server \<Rightarrow> string \<Rightarrow> string \<Rightarrow> string \<Rightarrow>
   (('w, 'r) Server \<Rightarrow> string \<Rightarrow> string \<Rightarrow> error option) \<Rightarrow>
   panic + (('w, 'r) Server \<times> error option)" where
  "ListenTLS g srv addr certFile keyFile ListenAndServeTLS =
     (let srv1 = srv\<lparr>Addr := addr\<rparr> in
      case toServeHandler g of
        Inl p \<Rightarrow> Inl p
      | Inr h \<Rightarrow>
          (let srv2 = srv1\<lparr>Handler := Some h\<rparr>;
               srv3 = (if ErrorLog g \<noteq> None then srv2\<lparr>srv_ErrorLog := ErrorLog g\<rparr> else srv2)
           in Inr (srv3, ListenAndServeTLS srv3 certFile keyFile)))"

text \<open>Lines 133 to 136 of \<open>Start\<close>: the address to listen on.\<close>

definition laddr_of :: "string list \<Rightarrow> string" where
  "laddr_of addr = (if length addr > 0 \<and> hd addr \<noteq> '''' then hd addr else ''127.0.0.1:0'')"

text \<open>
  \<open>Start\<close>, lines 132 to 152. The second component of the result lists the calls
  made to \<open>net.Listen\<close>, as (network, address).
\<close>

definition Start ::
  "('w, 'r) Gear \<Rightarrow> ('w, 'r) Server \<Rightarrow> string list \<Rightarrow>
   (string \<Rightarrow> string \<Rightarrow> error + net_Listener) \<Rightarrow>
   (('w, 'r) Server \<Rightarrow> net_Listener \<Rightarrow> error option) \<Rightarrow>
   (panic + (('w, 'r) Server \<times> ServerListener)) \<times> (string \<times> string) list" where
  "Start g srv addr net_Listen Serve =
     (let laddr = laddr_of addr in
      case toServeHandler g of
        Inl p \<Rightarrow> (Inl p, [])
      | Inr h \<Rightarrow>
          (let srv2 = srv\<lparr>Handler := Some h\<rparr>;
               srv3 = (if ErrorLog g \<noteq> None then srv2\<lparr>srv_ErrorLog := ErrorLog g\<rparr> else srv2)
           in case net_Listen ''tcp'' laddr of
                Inl err \<Rightarrow>
                  (Inl (Panic (NewAppError
                     (''failed to listen on '' @ laddr @ '': '' @ Error err))),
                   [(''tcp'', laddr)])
              | Inr lis \<Rightarrow>
                  (Inr (srv3, \<lparr>l = lis, c = Serve srv3 lis\<rparr>), [(''tcp'', laddr)])))"

section \<open>Reading the call record\<close>

text \<open>The positions of the units invoked, the after-hooks run, the error bodies written,
  the responses flushed and the Contexts released, each in order of occurrence.\<close>

fun units_of :: "('w, 'r) event list \<Rightarrow> nat list" where
  "units_of [] = []"
| "units_of (Unit i # es) = i # units_of es"
| "units_of (e # es) = units_of es"

fun hooks_of :: "('w, 'r) event list \<Rightarrow> hook_ref list" where
  "hooks_of [] = []"
| "hooks_of (AfterHook k # es) = k # hooks_of es"
| "hooks_of (e # es) = hooks_of es"

fun bodies_of :: "('w, 'r) event list \<Rightarrow> string list" where
  "bodies_of [] = []"
| "bodies_of (ErrorBody b # es) = b # bodies_of es"
| "bodies_of (e # es) = bodies_of es"

fun flushed_of :: "('w, 'r) event list \<Rightarrow> 'w Response list" where
  "flushed_of [] = []"
| "flushed_of (Flush x # es) = x # flushed_of es"
| "flushed_of (e # es) = flushed_of es"

fun released_of :: "('w, 'r) event list \<Rightarrow> ('w, 'r) Context list" where
  "released_of [] = []"
| "released_of (Release x # es) = x # released_of es"
| "released_of (e # es) = released_of es"

fun acquires_of :: "('w, 'r) event list \<Rightarrow> nat" where
  "acquires_of [] = 0"
| "acquires_of (Acquire # es) = Suc (acquires_of es)"
| "acquires_of (e # es) = acquires_of es"

text \<open>The calls one request adds to the record.\<close>

definition request_calls ::
  "('w, 'r) serveHandler \<Rightarrow> (hook_ref \<Rightarrow> ('w, 'r) Hook) \<Rightarrow>
   ('w Response \<Rightarrow> 'w Response \<times> error option) \<Rightarrow> 'w \<Rightarrow> 'r \<Rightarrow>
   ('w, 'r) World \<Rightarrow> ('w, 'r) event list" where
  "request_calls h hookOf respond w r s =
     drop (length (calls s)) (calls (ServeHTTP h hookOf respond w r s))"

text \<open>
  The vocabulary of the short-circuit rules: a unit \<open>stops\<close> the chain on a Context when
  it returns a non-nil error or leaves \<open>ended\<close> or \<open>Res.finished\<close> set;
  \<open>ctx_before ms ctx k\<close> is the Context unit \<open>k\<close> receives when the units before it
  have run in order from \<open>ctx\<close>.
\<close>

definition stops :: "('w, 'r) Middleware \<Rightarrow> ('w, 'r) Context \<Rightarrow> bool" where
  "stops u ctx = (snd (u ctx) \<noteq> None \<or> ended (fst (u ctx)) \<or> finished (Res (fst (u ctx))))"

fun ctx_before :: "('w, 'r) Middleware list \<Rightarrow> ('w, 'r) Context \<Rightarrow> nat \<Rightarrow> ('w, 'r) Context" where
  "ctx_before ms ctx 0 = ctx"
| "ctx_before ms ctx (Suc k) = fst ((ms ! k) (ctx_before ms ctx k))"

text \<open>The Context the first unit of a request receives.\<close>

definition bound_ctx :: "'w \<Rightarrow> 'r \<Rightarrow> ('w, 'r) World \<Rightarrow> ('w, 'r) Context" where
  "bound_ctx w r s = Context_Reset (Some w) (Some r) (fst (pool_Get s))"

section \<open>Example requests\<close>

text \<open>
  Concrete collaborators and units for evaluating the engine: writer and request are
  numbers, the pool starts empty, \<open>respond_ok\<close> marks the response finished and
  succeeds, and no after-hook changes the Context.
\<close>

definition world0 :: "(nat, nat) World" where
  "world0 = \<lparr>pool = [], logged = [], calls = []\<rparr>"

definition respond_ok :: "nat Response \<Rightarrow> nat Response \<times> error option" where
  "respond_ok x = (x\<lparr>finished := True\<rparr>, None)"

definition plain_hooks :: "hook_ref \<Rightarrow> (nat, nat) Hook" where
  "plain_hooks k = (\<lambda>ctx. ctx)"

definition unit_next :: "(nat, nat) Middleware" where
  "unit_next = (\<lambda>ctx. (ctx, None))"

definition unit_end :: "(nat, nat) Middleware" where
  "unit_end = (\<lambda>ctx. (ctx\<lparr>ended := True\<rparr>, None))"

definition unit_after :: "hook_ref \<Rightarrow> (nat, nat) Middleware" where
  "unit_after k = (\<lambda>ctx. (ctx\<lparr>afterHooks := afterHooks ctx @ [k]\<rparr>, None))"

definition unit_fail :: "string \<Rightarrow> (nat, nat) Middleware" where
  "unit_fail m = (\<lambda>ctx. (ctx, Some (errorString m)))"

text \<open>An application whose \<open>OnError\<close> hook answers every error with a fixed record,
  and one whose hook returns nil.\<close>

definition gear_fixed :: "int \<Rightarrow> string \<Rightarrow> (nat, nat) Gear" where
  "gear_fixed code msg = New\<lparr>OnError := (\<lambda>ctx err. (ctx, Some \<lparr>Code = code, Msg = msg\<rparr>))\<rparr>"

definition gear_nil :: "(nat, nat) Gear" where
  "gear_nil = New\<lparr>OnError := (\<lambda>ctx err. (ctx, None))\<rparr>"

definition handler_of :: "(nat, nat) Gear \<Rightarrow> (nat, nat) serveHandler" where
  "handler_of g = \<lparr>app = g, h_middleware = middleware g\<rparr>"

definition server0 :: "(nat, nat) Server" where
  "server0 = \<lparr>Addr = [], Handler = None, srv_ErrorLog = None\<rparr>"

definition listener0 :: net_Listener where
  "listener0 = \<lparr>lis_Addr = ''127.0.0.1:49152'', lis_Close = None\<rparr>"

text \<open>Handlers over these units: a chain of three whose second unit ends the request,
  single failing units under the default hook, a fixed record and a nil hook, and a
  chain that queues two after-hooks.\<close>

definition chain_next_end_fail :: "(nat, nat) serveHandler" where
  "chain_next_end_fail = handler_of (Use (unit_fail ''late'') (Use unit_end (Use unit_next New)))"

definition chain_boom :: "(nat, nat) serveHandler" where
  "chain_boom = handler_of (Use (unit_fail ''boom'') New)"

definition chain_boom_404 :: "(nat, nat) serveHandler" where
  "chain_boom_404 = handler_of (Use (unit_fail ''boom'') (gear_fixed 404 ''not here''))"

definition chain_boom_nil :: "(nat, nat) serveHandler" where
  "chain_boom_nil = handler_of (Use (unit_fail ''boom'') gear_nil)"

definition chain_hooks :: "(nat, nat) serveHandler" where
  "chain_hooks = handler_of (Use (unit_after 7) (Use (unit_after 3) New))"

text \<open>After-hooks that leave a mark: hook 3 appends \<open>a\<close> to the response body, every
  other hook appends \<open>b\<close>. And a chain that queues hook 3 and then fails, under the nil
  hook.\<close>

definition stamp_hooks :: "hook_ref \<Rightarrow> (nat, nat) Hook" where
  "stamp_hooks k =
     (\<lambda>ctx. ctx\<lparr>Res := (Res ctx)\<lparr>Body := Body (Res ctx) @ (if k = 3 then ''a'' else ''b'')\<rparr>\<rparr>)"

definition chain_hook_then_boom :: "(nat, nat) serveHandler" where
  "chain_hook_then_boom = handler_of (Use (unit_fail ''boom'') (Use (unit_after 3) gear_nil))"

text \<open>A transport for \<open>Start\<close>: a \<open>net.Listen\<close> that binds the ephemeral address
  and one that always fails, a \<open>Serve\<close> that ends with an error, and two standard
  handlers wrapped into a chain.\<close>

definition listen_ok :: "string \<Rightarrow> string \<Rightarrow> error + net_Listener" where
  "listen_ok network address =
     (if address = ''127.0.0.1:0'' then Inr listener0 else Inl (errorString ''unknown address''))"

definition listen_fail :: "string \<Rightarrow> string \<Rightarrow> error + net_Listener" where
  "listen_fail network address = Inl (errorString ''address already in use'')"

definition serve_closed :: "(nat, nat) Server \<Rightarrow> net_Listener \<Rightarrow> error option" where
  "serve_closed srv lis = Some (errorString ''use of closed network connection'')"

definition handler_hello :: "(nat, nat) http_Handler" where
  "handler_hello = (\<lambda>x req. x\<lparr>Body := ''hello'', finished := True\<rparr>)"

definition handler_idle :: "(nat, nat) http_Handler" where
  "handler_idle = (\<lambda>x req. x)"

definition chain_wrapped :: "(nat, nat) serveHandler" where
  "chain_wrapped =
     handler_of (Use (WrapHandlerFunc handler_hello) (Use (WrapHandler handler_idle) New))"

section \<open>The call record of a request\<close>

lemmas request_defs = handler_of_def Use_def New_def unit_fail_def plain_hooks_def
  respond_ok_def world0_def

lemmas engine_defs = request_calls_def ServeHTTP_def normalizeStage_def chainStage_def
  pool_Get_def pool_Put_def NewContext_def Context_Reset_def Context_Status_def
  Context_String_def normalizeError_def finishRequest_def runAfterHooks_def Gear_Error_def
  NewError_def errors_New_def textproto_Error_Error_def


lemma units_of_append: "units_of (a @ b) = units_of a @ units_of b"
  by (induction a rule: units_of.induct) auto

lemma ctx_before_Cons: "ctx_before (u # rest) ctx (Suc j) = ctx_before rest (fst (u ctx)) j"
  by (induction j) auto

lemma runMiddleware_calls:
  "ms \<noteq> [] \<Longrightarrow>
   \<exists>k<length ms. snd (snd (runMiddleware ms i ctx tr)) = tr @ map Unit [i..<i + Suc k]
     \<and> (\<forall>j<k. \<not> stops (ms ! j) (ctx_before ms ctx j))
     \<and> (stops (ms ! k) (ctx_before ms ctx k) \<or> Suc k = length ms)"
proof (induction ms arbitrary: i ctx tr)
  case Nil
  then show ?case by simp
next
  case (Cons u rest)
  obtain ctx' err where u: "u ctx = (ctx', err)" by (cases "u ctx")
  show ?case
  proof (cases "stops u ctx \<or> rest = []")
    case True
    then have "snd (snd (runMiddleware (u # rest) i ctx tr)) = tr @ map Unit [i..<i + Suc 0]"
      using u by (auto simp: stops_def)
    with True show ?thesis by (intro exI[of _ 0]) auto
  next
    case False
    then have ns: "\<not> stops u ctx" and ne: "rest \<noteq> []" by auto
    from Cons.IH[OF ne, of "Suc i" ctx' "tr @ [Unit i]"]
    obtain k where k: "k < length rest"
      "snd (snd (runMiddleware rest (Suc i) ctx' (tr @ [Unit i]))) = (tr @ [Unit i]) @ map Unit [Suc i..<Suc i + Suc k]"
      "\<forall>j<k. \<not> stops (rest ! j) (ctx_before rest ctx' j)"
      "stops (rest ! k) (ctx_before rest ctx' k) \<or> Suc k = length rest"
      by blast
    have run: "runMiddleware (u # rest) i ctx tr = runMiddleware rest (Suc i) ctx' (tr @ [Unit i])"
      using ns u by (auto simp: stops_def)
    have up: "[i..<i + Suc (Suc k)] = i # [Suc i..<Suc i + Suc k]"
      by (simp add: upt_conv_Cons)
    have c': "ctx' = fst (u ctx)" using u by simp
    have a: "snd (snd (runMiddleware (u # rest) i ctx tr)) = tr @ map Unit [i..<i + Suc (Suc k)]"
      unfolding run k(2) up by simp
    have b: "\<forall>j<Suc k. \<not> stops ((u # rest) ! j) (ctx_before (u # rest) ctx j)"
    proof (intro allI impI)
      fix j assume "j < Suc k"
      then show "\<not> stops ((u # rest) ! j) (ctx_before (u # rest) ctx j)"
        using ns k(3) c' by (cases j) (auto simp: ctx_before_Cons simp del: ctx_before.simps(2))
    qed
    have d: "stops ((u # rest) ! Suc k) (ctx_before (u # rest) ctx (Suc k)) \<or> Suc (Suc k) = length (u # rest)"
      using k(4) c' by (auto simp: ctx_before_Cons simp del: ctx_before.simps(2))
    show ?thesis
      using k(1) a b d by (intro exI[of _ "Suc k"]) simp
  qed
qed


lemma runMiddleware_calls_any:
  "\<exists>n\<le>length ms. snd (snd (runMiddleware ms i ctx tr)) = tr @ map Unit [i..<i + n]"
proof (cases "ms = []")
  case True
  then show ?thesis by simp
next
  case False
  from runMiddleware_calls[OF False, of i ctx tr]
  obtain k where "k < length ms"
    "snd (snd (runMiddleware ms i ctx tr)) = tr @ map Unit [i..<i + Suc k]" by blast
  then show ?thesis by (intro exI[of _ "Suc k"]) simp
qed

lemma runHooks_calls: "snd (runHooks hookOf ks ctx tr) = tr @ map AfterHook ks"
  by (induction ks arbitrary: ctx tr) auto

lemma runHooks_ctx: "fst (runHooks hookOf ks ctx tr) = fold hookOf ks ctx"
  by (induction ks arbitrary: ctx tr) auto

lemma Gear_Error_Some: "Gear_Error g (Some e) s = s"
  by (simp add: Gear_Error_def)

lemma pool_Get_calls: "calls (snd (pool_Get s)) = calls s @ [Acquire]"
  by (simp add: pool_Get_def split: list.splits)

lemma pool_Get_pool: "pool (snd (pool_Get s)) = tl (pool s)"
  by (simp add: pool_Get_def split: list.splits)

lemma pool_Get_logged: "logged (snd (pool_Get s)) = logged s"
  by (simp add: pool_Get_def split: list.splits)

lemma chainStage_calls:
  "\<exists>n\<le>length (h_middleware h). calls (snd (snd (chainStage h w r s))) =
     calls s @ [Acquire, Rebind (Some w) (Some r)] @ map Unit [0..<n]"
proof -
  obtain ctx0 s1 where g: "pool_Get s = (ctx0, s1)" by (cases "pool_Get s")
  then have c1: "calls s1 = calls s @ [Acquire]" using pool_Get_calls[of s] by simp
  from runMiddleware_calls_any[of "h_middleware h" 0
      "Context_Reset (Some w) (Some r) ctx0" "calls s1 @ [Rebind (Some w) (Some r)]"]
  obtain n where n: "n \<le> length (h_middleware h)"
    "snd (snd (runMiddleware (h_middleware h) 0 (Context_Reset (Some w) (Some r) ctx0)
        (calls s1 @ [Rebind (Some w) (Some r)]))) =
     (calls s1 @ [Rebind (Some w) (Some r)]) @ map Unit [0..<0 + n]" by blast
  have "calls (snd (snd (chainStage h w r s))) =
     calls s @ [Acquire, Rebind (Some w) (Some r)] @ map Unit [0..<n]"
    using n(2) c1 by (simp add: chainStage_def g case_prod_unfold)
  with n(1) show ?thesis by blast
qed

lemma chainStage_pool: "pool (snd (snd (chainStage h w r s))) = tl (pool s)"
  using pool_Get_pool[of s] by (simp add: chainStage_def case_prod_unfold)

lemma chainStage_logged: "logged (snd (snd (chainStage h w r s))) = logged s"
  using pool_Get_logged[of s] by (simp add: chainStage_def case_prod_unfold)

lemma normalizeStage_world: "snd (snd (normalizeStage h w r s)) = snd (snd (chainStage h w r s))"
  by (simp add: normalizeStage_def case_prod_unfold)

lemma normalizeError_keeps_error:
  "normalizeError g ctx (Some e) = (ctx2, err2) \<Longrightarrow> err2 \<noteq> None"
  by (auto simp: normalizeError_def split: prod.splits option.splits)

lemma normalizeError_nil: "normalizeError g ctx None = (ctx, None)"
  by (simp add: normalizeError_def)

text \<open>The response handed to \<open>respond\<close> on the error path.\<close>

lemma ServeHTTP_error_path:
  assumes "normalizeStage h w r s = (ctx2, Some e, s1)"
  shows "\<exists>ctxR. calls (ServeHTTP h hookOf respond w r s) =
           calls s1 @ [ErrorBody (Error e),
             Flush ((Res ctx2)\<lparr>Status := (if Status (Res ctx2) < 400 then 500 else Status (Res ctx2)),
                               Body := Error e\<rparr>),
             Rebind None None, Release ctxR]
         \<and> pool (ServeHTTP h hookOf respond w r s) = ctxR # pool s1
         \<and> logged (ServeHTTP h hookOf respond w r s) = logged s1
         \<and> Req ctxR = None \<and> res (Res ctxR) = None"
  using assms
  by (auto simp: ServeHTTP_def finishRequest_def Let_def Gear_Error_Some pool_Put_def
      Context_String_def Context_Reset_def split: prod.splits)

lemma ServeHTTP_success_path:
  assumes "normalizeStage h w r s = (ctx2, None, s1)"
  shows "\<exists>ctxR. calls (ServeHTTP h hookOf respond w r s) =
           calls s1 @ map AfterHook (afterHooks ctx2) @
             [Flush (Res (fold hookOf (afterHooks ctx2) ctx2)), Rebind None None, Release ctxR]
         \<and> pool (ServeHTTP h hookOf respond w r s) = ctxR # pool s1
         \<and> logged (ServeHTTP h hookOf respond w r s) = logged s1
         \<and> Req ctxR = None \<and> res (Res ctxR) = None"
proof -
  obtain ctx3 tr where rh: "runHooks hookOf (afterHooks ctx2) ctx2 (calls s1) = (ctx3, tr)"
    by (cases "runHooks hookOf (afterHooks ctx2) ctx2 (calls s1)")
  have tr: "tr = calls s1 @ map AfterHook (afterHooks ctx2)"
    using runHooks_calls[of hookOf "afterHooks ctx2" ctx2 "calls s1"] rh by simp
  have c3: "ctx3 = fold hookOf (afterHooks ctx2) ctx2"
    using runHooks_ctx[of hookOf "afterHooks ctx2" ctx2 "calls s1"] rh by simp
  show ?thesis
    using assms rh
    by (auto simp: ServeHTTP_def finishRequest_def runAfterHooks_def Let_def Gear_Error_Some
        pool_Put_def Context_Reset_def tr c3 split: prod.splits)
qed


lemma chainStage_calls_stop:
  assumes "h_middleware h \<noteq> []"
  shows "\<exists>k<length (h_middleware h).
     calls (snd (snd (chainStage h w r s))) =
       calls s @ [Acquire, Rebind (Some w) (Some r)] @ map Unit [0..<Suc k]
     \<and> (\<forall>j<k. \<not> stops (h_middleware h ! j) (ctx_before (h_middleware h) (bound_ctx w r s) j))
     \<and> (stops (h_middleware h ! k) (ctx_before (h_middleware h) (bound_ctx w r s) k)
        \<or> Suc k = length (h_middleware h))"
proof -
  let ?c = "bound_ctx w r s"
  let ?tr = "calls s @ [Acquire, Rebind (Some w) (Some r)]"
  from runMiddleware_calls[OF assms, of 0 ?c ?tr]
  obtain k where k: "k < length (h_middleware h)"
    "snd (snd (runMiddleware (h_middleware h) 0 ?c ?tr)) = ?tr @ map Unit [0..<0 + Suc k]"
    "\<forall>j<k. \<not> stops (h_middleware h ! j) (ctx_before (h_middleware h) ?c j)"
    "stops (h_middleware h ! k) (ctx_before (h_middleware h) ?c k) \<or> Suc k = length (h_middleware h)"
    by blast
  have "calls (snd (snd (chainStage h w r s))) = snd (snd (runMiddleware (h_middleware h) 0 ?c ?tr))"
    using pool_Get_calls[of s] by (simp add: chainStage_def bound_ctx_def case_prod_unfold)
  with k(2) have "calls (snd (snd (chainStage h w r s))) = ?tr @ map Unit [0..<Suc k]" by simp
  with k(1,3,4) show ?thesis by (intro exI[of _ k]) simp
qed

lemma units_of_hooks: "units_of (map AfterHook ks) = []"
  by (induction ks) auto

lemma units_of_units: "units_of (map Unit ns) = ns"
  by (induction ns) auto

lemma ServeHTTP_calls_tail:
  "\<exists>t. calls (ServeHTTP h hookOf respond w r s) = calls (snd (snd (chainStage h w r s))) @ t
       \<and> units_of t = []"
proof -
  obtain ctx2 err2 s1 where n: "normalizeStage h w r s = (ctx2, err2, s1)"
    by (cases "normalizeStage h w r s") auto
  then have s1: "s1 = snd (snd (chainStage h w r s))"
    using normalizeStage_world[of h w r s] by simp
  show ?thesis
  proof (cases err2)
    case None
    with n ServeHTTP_success_path[of h w r s ctx2 s1 hookOf respond] s1
    show ?thesis by (auto simp: units_of_append units_of_hooks)
  next
    case (Some e)
    with n ServeHTTP_error_path[of h w r s ctx2 e s1 hookOf respond] s1
    show ?thesis by auto
  qed
qed

text \<open>
  Claim C1. For a chain with at least one unit, the units a request invokes are exactly
  those at positions \<open>0, 1, ..., k\<close>, in that order, where \<open>k\<close> is the first position
  whose unit returns a non-nil error or leaves \<open>ended\<close> or \<open>Res.finished\<close> set, or
  the last position when there is none; no unit after \<open>k\<close> is invoked.
\<close>

theorem C1_units_in_order_until_first_stop:
  assumes "h_middleware h \<noteq> []"
  shows "\<exists>k<length (h_middleware h).
     units_of (request_calls h hookOf respond w r s) = [0..<Suc k]
     \<and> (\<forall>j<k. \<not> stops (h_middleware h ! j) (ctx_before (h_middleware h) (bound_ctx w r s) j))
     \<and> (stops (h_middleware h ! k) (ctx_before (h_middleware h) (bound_ctx w r s) k)
        \<or> Suc k = length (h_middleware h))"
proof -
  from chainStage_calls_stop[OF assms, of w r s]
  obtain k where k: "k < length (h_middleware h)"
    "calls (snd (snd (chainStage h w r s))) =
       calls s @ [Acquire, Rebind (Some w) (Some r)] @ map Unit [0..<Suc k]"
    "\<forall>j<k. \<not> stops (h_middleware h ! j) (ctx_before (h_middleware h) (bound_ctx w r s) j)"
    "stops (h_middleware h ! k) (ctx_before (h_middleware h) (bound_ctx w r s) k)
        \<or> Suc k = length (h_middleware h)"
    by blast
  from ServeHTTP_calls_tail[of h hookOf respond w r s]
  obtain t where t: "calls (ServeHTTP h hookOf respond w r s) = calls (snd (snd (chainStage h w r s))) @ t"
    "units_of t = []" by blast
  have "request_calls h hookOf respond w r s = [Acquire, Rebind (Some w) (Some r)] @ map Unit [0..<Suc k] @ t"
    unfolding request_calls_def t(1) k(2) by simp
  then have "units_of (request_calls h hookOf respond w r s) = [0..<Suc k]"
    using t(2) by (simp add: units_of_append units_of_units del: upt_Suc)
  with k(1,3,4) show ?thesis by blast
qed

theorem C1_witness:
  "h_middleware chain_next_end_fail \<noteq> []
   \<and> units_of (request_calls chain_next_end_fail plain_hooks respond_ok 0 0 world0) = [0, 1]
   \<and> (\<exists>k<length (h_middleware chain_next_end_fail).
        units_of (request_calls chain_next_end_fail plain_hooks respond_ok 0 0 world0) = [0..<Suc k]
      \<and> (\<forall>j<k. \<not> stops (h_middleware chain_next_end_fail ! j)
             (ctx_before (h_middleware chain_next_end_fail) (bound_ctx 0 0 world0) j))
      \<and> (stops (h_middleware chain_next_end_fail ! k)
             (ctx_before (h_middleware chain_next_end_fail) (bound_ctx 0 0 world0) k)
          \<or> Suc k = length (h_middleware chain_next_end_fail)))"
proof -
  have ne: "h_middleware chain_next_end_fail \<noteq> []"
    by (simp add: request_defs chain_next_end_fail_def unit_end_def unit_next_def)
  have ev: "units_of (request_calls chain_next_end_fail plain_hooks respond_ok 0 0 world0) = [0, 1]"
    by (simp add: request_defs chain_next_end_fail_def unit_end_def unit_next_def engine_defs)
  show ?thesis
    using ne ev C1_units_in_order_until_first_stop[OF ne, of plain_hooks respond_ok 0 0 world0]
    by blast
qed

section \<open>The two paths of a request\<close>


lemma hooks_of_append: "hooks_of (a @ b) = hooks_of a @ hooks_of b"
  by (induction a rule: hooks_of.induct) auto

lemma bodies_of_append: "bodies_of (a @ b) = bodies_of a @ bodies_of b"
  by (induction a rule: bodies_of.induct) auto

lemma flushed_of_append: "flushed_of (a @ b) = flushed_of a @ flushed_of b"
  by (induction a rule: flushed_of.induct) auto

lemma released_of_append: "released_of (a @ b) = released_of a @ released_of b"
  by (induction a rule: released_of.induct) auto

lemma acquires_of_append: "acquires_of (a @ b) = acquires_of a + acquires_of b"
  by (induction a rule: acquires_of.induct) auto

lemma of_units:
  "hooks_of (map Unit ns) = []" "bodies_of (map Unit ns) = []" "flushed_of (map Unit ns) = []"
  "released_of (map Unit ns) = []" "acquires_of (map Unit ns) = 0"
  by (induction ns) auto

lemma of_hooks:
  "hooks_of (map AfterHook ks) = ks" "bodies_of (map AfterHook ks) = []"
  "flushed_of (map AfterHook ks) = []" "released_of (map AfterHook ks) = []"
  "acquires_of (map AfterHook ks) = 0"
  by (induction ks) auto

lemmas of_simps = units_of_append hooks_of_append bodies_of_append flushed_of_append
  released_of_append acquires_of_append of_units of_hooks units_of_units units_of_hooks

lemma request_calls_error:
  assumes "fst (snd (normalizeStage h w r s)) = Some e"
  shows "\<exists>n ctxR. n \<le> length (h_middleware h)
     \<and> request_calls h hookOf respond w r s =
         [Acquire, Rebind (Some w) (Some r)] @ map Unit [0..<n] @
         [ErrorBody (Error e),
          Flush ((Res (fst (normalizeStage h w r s)))
            \<lparr>Status := (if Status (Res (fst (normalizeStage h w r s))) < 400 then 500
                        else Status (Res (fst (normalizeStage h w r s)))),
             Body := Error e\<rparr>),
          Rebind None None, Release ctxR]
     \<and> pool (ServeHTTP h hookOf respond w r s) = ctxR # tl (pool s)
     \<and> logged (ServeHTTP h hookOf respond w r s) = logged s
     \<and> Req ctxR = None \<and> res (Res ctxR) = None"
proof -
  obtain ctx2 s1 where n: "normalizeStage h w r s = (ctx2, Some e, s1)"
    using assms by (cases "normalizeStage h w r s") auto
  then have s1: "s1 = snd (snd (chainStage h w r s))"
    using normalizeStage_world[of h w r s] by simp
  from chainStage_calls[of h w r s] s1
  obtain k where k: "k \<le> length (h_middleware h)"
    "calls s1 = calls s @ [Acquire, Rebind (Some w) (Some r)] @ map Unit [0..<k]" by blast
  from ServeHTTP_error_path[OF n, of hookOf respond]
  obtain ctxR where c: "calls (ServeHTTP h hookOf respond w r s) =
           calls s1 @ [ErrorBody (Error e),
             Flush ((Res ctx2)\<lparr>Status := (if Status (Res ctx2) < 400 then 500 else Status (Res ctx2)),
                               Body := Error e\<rparr>),
             Rebind None None, Release ctxR]"
      "pool (ServeHTTP h hookOf respond w r s) = ctxR # pool s1"
      "logged (ServeHTTP h hookOf respond w r s) = logged s1"
      "Req ctxR = None" "res (Res ctxR) = None" by blast
  have p: "pool s1 = tl (pool s)" "logged s1 = logged s"
    using s1 chainStage_pool[of h w r s] chainStage_logged[of h w r s] by simp_all
  have "request_calls h hookOf respond w r s =
         [Acquire, Rebind (Some w) (Some r)] @ map Unit [0..<k] @
         [ErrorBody (Error e),
          Flush ((Res ctx2)\<lparr>Status := (if Status (Res ctx2) < 400 then 500 else Status (Res ctx2)),
             Body := Error e\<rparr>),
          Rebind None None, Release ctxR]"
    unfolding request_calls_def c(1) k(2) by simp
  then show ?thesis
    using k(1) c(2-) p n by (intro exI[of _ k] exI[of _ ctxR]) simp
qed

lemma request_calls_success:
  assumes "fst (snd (normalizeStage h w r s)) = None"
  shows "\<exists>n ctxR. n \<le> length (h_middleware h)
     \<and> request_calls h hookOf respond w r s =
         [Acquire, Rebind (Some w) (Some r)] @ map Unit [0..<n] @
         map AfterHook (afterHooks (fst (normalizeStage h w r s))) @
         [Flush (Res (fold hookOf (afterHooks (fst (normalizeStage h w r s)))
                   (fst (normalizeStage h w r s)))),
          Rebind None None, Release ctxR]
     \<and> pool (ServeHTTP h hookOf respond w r s) = ctxR # tl (pool s)
     \<and> logged (ServeHTTP h hookOf respond w r s) = logged s
     \<and> Req ctxR = None \<and> res (Res ctxR) = None"
proof -
  obtain ctx2 s1 where n: "normalizeStage h w r s = (ctx2, None, s1)"
    using assms by (cases "normalizeStage h w r s") auto
  then have s1: "s1 = snd (snd (chainStage h w r s))"
    using normalizeStage_world[of h w r s] by simp
  from chainStage_calls[of h w r s] s1
  obtain k where k: "k \<le> length (h_middleware h)"
    "calls s1 = calls s @ [Acquire, Rebind (Some w) (Some r)] @ map Unit [0..<k]" by blast
  from ServeHTTP_success_path[OF n, of hookOf respond]
  obtain ctxR where c: "calls (ServeHTTP h hookOf respond w r s) =
           calls s1 @ map AfterHook (afterHooks ctx2) @
             [Flush (Res (fold hookOf (afterHooks ctx2) ctx2)), Rebind None None, Release ctxR]"
      "pool (ServeHTTP h hookOf respond w r s) = ctxR # pool s1"
      "logged (ServeHTTP h hookOf respond w r s) = logged s1"
      "Req ctxR = None" "res (Res ctxR) = None" by blast
  have p: "pool s1 = tl (pool s)" "logged s1 = logged s"
    using s1 chainStage_pool[of h w r s] chainStage_logged[of h w r s] by simp_all
  have "request_calls h hookOf respond w r s =
         [Acquire, Rebind (Some w) (Some r)] @ map Unit [0..<k] @
         map AfterHook (afterHooks ctx2) @
             [Flush (Res (fold hookOf (afterHooks ctx2) ctx2)), Rebind None None, Release ctxR]"
    unfolding request_calls_def c(1) k(2) by simp
  then show ?thesis
    using k(1) c(2-) p n by (intro exI[of _ k] exI[of _ ctxR]) simp
qed

lemma fmt_03d_500: "fmt_03d 500 = ''500''"
  by code_simp

lemma fmt_03d_404: "fmt_03d 404 = ''404''"
  by code_simp


lemma ServeHTTP_logged: "logged (ServeHTTP h hookOf respond w r s) = logged s"
proof (cases "fst (snd (normalizeStage h w r s))")
  case None
  from request_calls_success[OF None, of hookOf respond] show ?thesis by blast
next
  case (Some e)
  from request_calls_error[OF Some, of hookOf respond] show ?thesis by blast
qed

lemma Gear_Error_nil:
  "logged (Gear_Error g None s) = logged s @ [(ErrorLog g, ''<nil>'')]"
  by (simp add: Gear_Error_def Println_text_def)

text \<open>
  Claim C2, evaluated at a request that ends in a server error. A single unit fails with
  the error \<open>boom\<close> under the default hook: the response is flushed with status 500
  and an error body, and no line has been written to any logger. \<open>Gear.Error\<close> writes
  only when its argument is nil (\<open>Gear_Error_nil\<close>) and nothing otherwise
  (\<open>Gear_Error_Some\<close>), so no request changes the log (\<open>ServeHTTP_logged\<close>).
\<close>

theorem C2_server_error_not_logged:
  "map Status (flushed_of (request_calls chain_boom plain_hooks respond_ok 0 0 world0)) = [500]
   \<and> bodies_of (request_calls chain_boom plain_hooks respond_ok 0 0 world0) = [''500 boom'']
   \<and> logged (ServeHTTP chain_boom plain_hooks respond_ok 0 0 world0) = []"
  by (simp add: request_defs chain_boom_def engine_defs fmt_03d_500)

lemma single_unit_default_hook:
  assumes "h_middleware h = [u]" and "OnError (app h) = OnError New"
    and "snd (u (bound_ctx w r s)) = Some E"
  shows "fst (snd (normalizeStage h w r s)) = Some (errorString (''500 '' @ Error E))"
    and "Status (Res (fst (normalizeStage h w r s))) = 500"
  using assms
  by (simp_all add: normalizeStage_def chainStage_def normalizeError_def bound_ctx_def New_def
      NewError_def errors_New_def textproto_Error_Error_def Context_Status_def fmt_03d_500
      case_prod_unfold)

text \<open>
  Claim C3 as stated fails for the unit that returns the error \<open>boom\<close>: the body
  flushed is not \<open>boom\<close>.
\<close>

theorem C3_counterexample:
  "\<not> (map Body (flushed_of (request_calls chain_boom plain_hooks respond_ok 0 0 world0))
        = [Error (errorString ''boom'')]
      \<and> map Status (flushed_of (request_calls chain_boom plain_hooks respond_ok 0 0 world0)) = [500]
      \<and> hooks_of (request_calls chain_boom plain_hooks respond_ok 0 0 world0) = [])"
  by (simp add: request_defs chain_boom_def engine_defs fmt_03d_500)

text \<open>
  Claim C3, amended. For a chain of a single unit that returns the error \<open>E\<close>, under
  the default \<open>OnError\<close> hook, the body flushed is \<open>500\<close>, a space and
  \<open>E.Error()\<close> (the hook's record as \<open>textproto.Error.Error\<close> prints it), the status
  flushed is 500, and no after-hook runs.
\<close>

theorem C3_single_failing_unit_default_hook:
  assumes "h_middleware h = [u]" and "OnError (app h) = OnError New"
    and "snd (u (bound_ctx w r s)) = Some E"
  shows "map Body (flushed_of (request_calls h hookOf respond w r s)) = [''500 '' @ Error E]
     \<and> map Status (flushed_of (request_calls h hookOf respond w r s)) = [500]
     \<and> hooks_of (request_calls h hookOf respond w r s) = []"
proof -
  note n = single_unit_default_hook[OF assms]
  from request_calls_error[OF n(1), of hookOf respond] n(2)
  show ?thesis by (auto simp: of_simps)
qed

theorem C3_witness:
  "h_middleware chain_boom = [unit_fail ''boom''] \<and> OnError (app chain_boom) = OnError New
   \<and> snd (unit_fail ''boom'' (bound_ctx 0 0 world0)) = Some (errorString ''boom'')
   \<and> map Body (flushed_of (request_calls chain_boom plain_hooks respond_ok 0 0 world0)) = [''500 boom'']
   \<and> map Status (flushed_of (request_calls chain_boom plain_hooks respond_ok 0 0 world0)) = [500]
   \<and> hooks_of (request_calls chain_boom plain_hooks respond_ok 0 0 world0) = []"
proof -
  have a: "h_middleware chain_boom = [unit_fail ''boom'']"
    and b: "OnError (app chain_boom) = OnError New"
    and c: "snd (unit_fail ''boom'' (bound_ctx 0 0 world0)) = Some (errorString ''boom'')"
    by (simp_all add: request_defs chain_boom_def)
  from C3_single_failing_unit_default_hook[OF a b c, of plain_hooks respond_ok] a b c
  show ?thesis by simp
qed

text \<open>
  Claim C4 as stated fails under a hook that answers with the record (404, not here):
  the working error and the body are not the record's message alone.
\<close>

theorem C4_counterexample:
  "\<not> (map Status (flushed_of (request_calls chain_boom_404 plain_hooks respond_ok 0 0 world0)) = [404]
      \<and> fst (snd (normalizeStage chain_boom_404 0 0 world0)) = Some (errors_New ''not here'')
      \<and> map Body (flushed_of (request_calls chain_boom_404 plain_hooks respond_ok 0 0 world0))
          = [''not here''])"
  by (simp add: request_defs chain_boom_404_def gear_fixed_def engine_defs fmt_03d_404)

lemma normalizeStage_record:
  assumes "fst (snd (chainStage h w r s)) = Some e"
    and "OnError (app h) (fst (chainStage h w r s)) e = (ctx', Some ce)"
  shows "fst (normalizeStage h w r s) = Context_Status (Code ce) ctx'"
    and "fst (snd (normalizeStage h w r s)) = Some (errors_New (fmt_03d (Code ce) @ '' '' @ Msg ce))"
  using assms
  by (simp_all add: normalizeStage_def normalizeError_def textproto_Error_Error_def case_prod_unfold)

text \<open>
  Claim C4, amended. When the chain ends with an error and the \<open>OnError\<close> hook returns
  a record, the engine sets the response status to the record's code and replaces the
  working error by one whose message is the record's \<open>Error()\<close> text: the code in at
  least three digits, a space, the record's message. That text is the body flushed; the
  status flushed is the record's code, or 500 when the code is below 400.
\<close>

theorem C4_record_sets_status_and_coded_message:
  assumes "fst (snd (chainStage h w r s)) = Some e"
    and "OnError (app h) (fst (chainStage h w r s)) e = (ctx', Some ce)"
  shows "Status (Res (fst (normalizeStage h w r s))) = Code ce
     \<and> fst (snd (normalizeStage h w r s)) = Some (errors_New (fmt_03d (Code ce) @ '' '' @ Msg ce))
     \<and> map Body (flushed_of (request_calls h hookOf respond w r s))
         = [fmt_03d (Code ce) @ '' '' @ Msg ce]
     \<and> map Status (flushed_of (request_calls h hookOf respond w r s))
         = [if Code ce < 400 then 500 else Code ce]"
proof -
  note n = normalizeStage_record[OF assms]
  have st: "Status (Res (fst (normalizeStage h w r s))) = Code ce"
    by (simp add: n(1) Context_Status_def)
  from request_calls_error[OF n(2), of hookOf respond] st n(2)
  show ?thesis by (auto simp: of_simps errors_New_def)
qed

theorem C4_witness:
  "fst (snd (chainStage chain_boom_404 0 0 world0)) = Some (errorString ''boom'')
   \<and> OnError (app chain_boom_404) (fst (chainStage chain_boom_404 0 0 world0)) (errorString ''boom'')
       = (fst (chainStage chain_boom_404 0 0 world0), Some \<lparr>Code = 404, Msg = ''not here''\<rparr>)
   \<and> Status (Res (fst (normalizeStage chain_boom_404 0 0 world0))) = 404
   \<and> fst (snd (normalizeStage chain_boom_404 0 0 world0)) = Some (errors_New ''404 not here'')
   \<and> map Body (flushed_of (request_calls chain_boom_404 plain_hooks respond_ok 0 0 world0))
       = [''404 not here'']
   \<and> map Status (flushed_of (request_calls chain_boom_404 plain_hooks respond_ok 0 0 world0)) = [404]"
proof -
  have a: "fst (snd (chainStage chain_boom_404 0 0 world0)) = Some (errorString ''boom'')"
    by (simp add: request_defs chain_boom_404_def gear_fixed_def engine_defs)
  have b: "OnError (app chain_boom_404) (fst (chainStage chain_boom_404 0 0 world0)) (errorString ''boom'')
       = (fst (chainStage chain_boom_404 0 0 world0), Some \<lparr>Code = 404, Msg = ''not here''\<rparr>)"
    by (simp add: request_defs chain_boom_404_def gear_fixed_def)
  from C4_record_sets_status_and_coded_message[OF a b, of plain_hooks respond_ok] a b
  show ?thesis by (simp add: fmt_03d_404)
qed


text \<open>
  Claim C5. Every request does exactly one of two things. With no error after
  normalization, the after-hooks queued at that point run, in order, no error body is
  written, and the response flushed is the one the hooks leave, each applied in turn to
  the Context. With an error, its message is written as the body, once, no after-hook
  runs, and the response flushed is the one normalization left, untouched by any hook,
  with the error's message as body and the status forced to 500 when below 400.
\<close>

theorem C5_after_hooks_or_error_body:
  "(fst (snd (normalizeStage h w r s)) = None
      \<and> hooks_of (request_calls h hookOf respond w r s) = afterHooks (fst (normalizeStage h w r s))
      \<and> bodies_of (request_calls h hookOf respond w r s) = []
      \<and> flushed_of (request_calls h hookOf respond w r s)
          = [Res (fold hookOf (afterHooks (fst (normalizeStage h w r s)))
                    (fst (normalizeStage h w r s)))])
   \<or> (\<exists>e. fst (snd (normalizeStage h w r s)) = Some e
      \<and> hooks_of (request_calls h hookOf respond w r s) = []
      \<and> bodies_of (request_calls h hookOf respond w r s) = [Error e]
      \<and> flushed_of (request_calls h hookOf respond w r s)
          = [(Res (fst (normalizeStage h w r s)))
               \<lparr>Status := (if Status (Res (fst (normalizeStage h w r s))) < 400 then 500
                           else Status (Res (fst (normalizeStage h w r s)))),
                Body := Error e\<rparr>])"
proof (cases "fst (snd (normalizeStage h w r s))")
  case None
  from request_calls_success[OF None, of hookOf respond]
  obtain n ctxR where rc: "request_calls h hookOf respond w r s =
         [Acquire, Rebind (Some w) (Some r)] @ map Unit [0..<n] @
         map AfterHook (afterHooks (fst (normalizeStage h w r s))) @
         [Flush (Res (fold hookOf (afterHooks (fst (normalizeStage h w r s)))
                   (fst (normalizeStage h w r s)))),
          Rebind None None, Release ctxR]" by blast
  have "hooks_of (request_calls h hookOf respond w r s) = afterHooks (fst (normalizeStage h w r s))"
    and "bodies_of (request_calls h hookOf respond w r s) = []"
    and "flushed_of (request_calls h hookOf respond w r s)
          = [Res (fold hookOf (afterHooks (fst (normalizeStage h w r s)))
                    (fst (normalizeStage h w r s)))]"
    unfolding rc by (simp_all add: of_simps)
  with None show ?thesis by blast
next
  case (Some e)
  from request_calls_error[OF Some, of hookOf respond]
  obtain n ctxR where rc: "request_calls h hookOf respond w r s =
         [Acquire, Rebind (Some w) (Some r)] @ map Unit [0..<n] @
         [ErrorBody (Error e),
          Flush ((Res (fst (normalizeStage h w r s)))
            \<lparr>Status := (if Status (Res (fst (normalizeStage h w r s))) < 400 then 500
                        else Status (Res (fst (normalizeStage h w r s)))),
             Body := Error e\<rparr>),
          Rebind None None, Release ctxR]" by blast
  have "hooks_of (request_calls h hookOf respond w r s) = []"
    and "bodies_of (request_calls h hookOf respond w r s) = [Error e]"
    and "flushed_of (request_calls h hookOf respond w r s)
          = [(Res (fst (normalizeStage h w r s)))
               \<lparr>Status := (if Status (Res (fst (normalizeStage h w r s))) < 400 then 500
                           else Status (Res (fst (normalizeStage h w r s)))),
                Body := Error e\<rparr>]"
    unfolding rc by (simp_all add: of_simps)
  with Some show ?thesis by blast
qed

theorem C5_witness:
  "hooks_of (request_calls chain_hooks stamp_hooks respond_ok 0 0 world0) = [3, 7]
   \<and> bodies_of (request_calls chain_hooks stamp_hooks respond_ok 0 0 world0) = []
   \<and> flushed_of (request_calls chain_hooks stamp_hooks respond_ok 0 0 world0)
       = [\<lparr>res = Some 0, Status = 0, Body = ''ab'', finished = False\<rparr>]
   \<and> afterHooks (fst (normalizeStage chain_hook_then_boom 0 0 world0)) = [3]
   \<and> hooks_of (request_calls chain_hook_then_boom stamp_hooks respond_ok 0 0 world0) = []
   \<and> bodies_of (request_calls chain_hook_then_boom stamp_hooks respond_ok 0 0 world0) = [''boom'']
   \<and> flushed_of (request_calls chain_hook_then_boom stamp_hooks respond_ok 0 0 world0)
       = [\<lparr>res = Some 0, Status = 500, Body = ''boom'', finished = False\<rparr>]"
proof -
  have a: "fst (snd (normalizeStage chain_hooks 0 0 world0)) = None"
    and b: "fst (normalizeStage chain_hooks 0 0 world0)
        = \<lparr>Req = Some 0, Res = \<lparr>res = Some 0, Status = 0, Body = [], finished = False\<rparr>,
           ended = True, afterHooks = [3, 7]\<rparr>"
    by (simp_all add: request_defs chain_hooks_def unit_after_def engine_defs)
  have c: "fst (snd (normalizeStage chain_hook_then_boom 0 0 world0)) = Some (errorString ''boom'')"
    and d: "fst (normalizeStage chain_hook_then_boom 0 0 world0)
        = \<lparr>Req = Some 0, Res = \<lparr>res = Some 0, Status = 0, Body = [], finished = False\<rparr>,
           ended = True, afterHooks = [3]\<rparr>"
    by (simp_all add: request_defs chain_hook_then_boom_def unit_after_def gear_nil_def engine_defs)
  from C5_after_hooks_or_error_body[of chain_hooks 0 0 world0 stamp_hooks respond_ok] a
  have ok: "hooks_of (request_calls chain_hooks stamp_hooks respond_ok 0 0 world0) = [3, 7]
     \<and> bodies_of (request_calls chain_hooks stamp_hooks respond_ok 0 0 world0) = []
     \<and> flushed_of (request_calls chain_hooks stamp_hooks respond_ok 0 0 world0)
         = [\<lparr>res = Some 0, Status = 0, Body = ''ab'', finished = False\<rparr>]"
    by (simp add: b stamp_hooks_def)
  from C5_after_hooks_or_error_body[of chain_hook_then_boom 0 0 world0 stamp_hooks respond_ok] c
  have bad: "hooks_of (request_calls chain_hook_then_boom stamp_hooks respond_ok 0 0 world0) = []
     \<and> bodies_of (request_calls chain_hook_then_boom stamp_hooks respond_ok 0 0 world0) = [''boom'']
     \<and> flushed_of (request_calls chain_hook_then_boom stamp_hooks respond_ok 0 0 world0)
         = [\<lparr>res = Some 0, Status = 500, Body = ''boom'', finished = False\<rparr>]"
    by (simp add: d)
  from ok bad d show ?thesis by simp
qed

text \<open>
  Claim C6. When an error is present after normalization, the status flushed is 500 if
  the status was below 400 and unchanged otherwise, the error's message is the body, and
  no after-hook runs. A middleware error for which \<open>OnError\<close> returns nil is still
  present after normalization, unchanged.
\<close>

theorem C6_error_path_runs:
  "(fst (snd (normalizeStage h w r s)) = Some e \<longrightarrow>
      map Status (flushed_of (request_calls h hookOf respond w r s))
        = [if Status (Res (fst (normalizeStage h w r s))) < 400 then 500
           else Status (Res (fst (normalizeStage h w r s)))]
      \<and> map Body (flushed_of (request_calls h hookOf respond w r s)) = [Error e]
      \<and> bodies_of (request_calls h hookOf respond w r s) = [Error e]
      \<and> hooks_of (request_calls h hookOf respond w r s) = [])
   \<and> (fst (snd (chainStage h w r s)) = Some e0
        \<and> snd (OnError (app h) (fst (chainStage h w r s)) e0) = None \<longrightarrow>
      fst (snd (normalizeStage h w r s)) = Some e0)"
proof (intro conjI impI)
  assume a: "fst (snd (normalizeStage h w r s)) = Some e"
  from request_calls_error[OF a, of hookOf respond]
  obtain n ctxR where rc: "request_calls h hookOf respond w r s =
         [Acquire, Rebind (Some w) (Some r)] @ map Unit [0..<n] @
         [ErrorBody (Error e),
          Flush ((Res (fst (normalizeStage h w r s)))
            \<lparr>Status := (if Status (Res (fst (normalizeStage h w r s))) < 400 then 500
                        else Status (Res (fst (normalizeStage h w r s)))),
             Body := Error e\<rparr>),
          Rebind None None, Release ctxR]" by blast
  show "map Status (flushed_of (request_calls h hookOf respond w r s))
        = [if Status (Res (fst (normalizeStage h w r s))) < 400 then 500
           else Status (Res (fst (normalizeStage h w r s)))]"
    unfolding rc by (simp add: of_simps)
  show "map Body (flushed_of (request_calls h hookOf respond w r s)) = [Error e]"
    unfolding rc by (simp add: of_simps)
  show "bodies_of (request_calls h hookOf respond w r s) = [Error e]"
    unfolding rc by (simp add: of_simps)
  show "hooks_of (request_calls h hookOf respond w r s) = []"
    unfolding rc by (simp add: of_simps)
next
  assume "fst (snd (chainStage h w r s)) = Some e0
        \<and> snd (OnError (app h) (fst (chainStage h w r s)) e0) = None"
  then show "fst (snd (normalizeStage h w r s)) = Some e0"
    by (simp add: normalizeStage_def normalizeError_def case_prod_unfold split: option.splits)
qed

theorem C6_witness:
  "fst (snd (chainStage chain_boom_nil 0 0 world0)) = Some (errorString ''boom'')
   \<and> snd (OnError (app chain_boom_nil) (fst (chainStage chain_boom_nil 0 0 world0))
        (errorString ''boom'')) = None
   \<and> fst (snd (normalizeStage chain_boom_nil 0 0 world0)) = Some (errorString ''boom'')
   \<and> Status (Res (fst (normalizeStage chain_boom_nil 0 0 world0))) = 0
   \<and> map Status (flushed_of (request_calls chain_boom_nil plain_hooks respond_ok 0 0 world0)) = [500]
   \<and> map Body (flushed_of (request_calls chain_boom_nil plain_hooks respond_ok 0 0 world0)) = [''boom'']
   \<and> bodies_of (request_calls chain_boom_nil plain_hooks respond_ok 0 0 world0) = [''boom'']
   \<and> hooks_of (request_calls chain_boom_nil plain_hooks respond_ok 0 0 world0) = []"
proof -
  have a: "fst (snd (chainStage chain_boom_nil 0 0 world0)) = Some (errorString ''boom'')"
    and b: "snd (OnError (app chain_boom_nil) (fst (chainStage chain_boom_nil 0 0 world0))
        (errorString ''boom'')) = None"
    and c: "Status (Res (fst (normalizeStage chain_boom_nil 0 0 world0))) = 0"
    by (simp_all add: request_defs chain_boom_nil_def gear_nil_def engine_defs)
  from C6_error_path_runs[of chain_boom_nil 0 0 world0 "errorString ''boom''" plain_hooks respond_ok
      "errorString ''boom''"] a b c
  show ?thesis by simp
qed

text \<open>
  Claim C7. A request makes exactly one \<open>Get\<close> on the pool, first of all its calls,
  and exactly one \<open>Put\<close>, last of all, right after \<open>Reset(nil, nil)\<close>. The Context
  put back has no request and no response writer bound; it is the head of the pool, so
  the next \<open>Get\<close> returns it.
\<close>

theorem C7_one_acquire_one_release:
  "\<exists>mid ctxR.
     request_calls h hookOf respond w r s =
       Acquire # Rebind (Some w) (Some r) # mid @ [Rebind None None, Release ctxR]
     \<and> acquires_of (request_calls h hookOf respond w r s) = 1
     \<and> released_of (request_calls h hookOf respond w r s) = [ctxR]
     \<and> Req ctxR = None \<and> res (Res ctxR) = None
     \<and> pool (ServeHTTP h hookOf respond w r s) = ctxR # tl (pool s)
     \<and> fst (pool_Get (ServeHTTP h hookOf respond w r s)) = ctxR"
proof (cases "fst (snd (normalizeStage h w r s))")
  case None
  from request_calls_success[OF None, of hookOf respond]
  obtain n ctxR where rc: "request_calls h hookOf respond w r s =
         [Acquire, Rebind (Some w) (Some r)] @ map Unit [0..<n] @
         map AfterHook (afterHooks (fst (normalizeStage h w r s))) @
         [Flush (Res (fold hookOf (afterHooks (fst (normalizeStage h w r s)))
                   (fst (normalizeStage h w r s)))),
          Rebind None None, Release ctxR]"
    and p: "pool (ServeHTTP h hookOf respond w r s) = ctxR # tl (pool s)"
      "Req ctxR = None" "res (Res ctxR) = None" by blast
  let ?mid = "map Unit [0..<n] @ map AfterHook (afterHooks (fst (normalizeStage h w r s))) @
         [Flush (Res (fold hookOf (afterHooks (fst (normalizeStage h w r s)))
                   (fst (normalizeStage h w r s))))]"
  have 1: "request_calls h hookOf respond w r s =
       Acquire # Rebind (Some w) (Some r) # ?mid @ [Rebind None None, Release ctxR]"
    unfolding rc by simp
  have 2: "acquires_of (request_calls h hookOf respond w r s) = 1"
    unfolding rc by (simp add: of_simps)
  have 3: "released_of (request_calls h hookOf respond w r s) = [ctxR]"
    unfolding rc by (simp add: of_simps)
  have 4: "fst (pool_Get (ServeHTTP h hookOf respond w r s)) = ctxR"
    by (simp add: pool_Get_def p(1))
  show ?thesis using 1 2 3 4 p by blast
next
  case (Some e)
  from request_calls_error[OF Some, of hookOf respond]
  obtain n ctxR where rc: "request_calls h hookOf respond w r s =
         [Acquire, Rebind (Some w) (Some r)] @ map Unit [0..<n] @
         [ErrorBody (Error e),
          Flush ((Res (fst (normalizeStage h w r s)))
            \<lparr>Status := (if Status (Res (fst (normalizeStage h w r s))) < 400 then 500
                        else Status (Res (fst (normalizeStage h w r s)))),
             Body := Error e\<rparr>),
          Rebind None None, Release ctxR]"
    and p: "pool (ServeHTTP h hookOf respond w r s) = ctxR # tl (pool s)"
      "Req ctxR = None" "res (Res ctxR) = None" by blast
  let ?mid = "map Unit [0..<n] @
         [ErrorBody (Error e),
          Flush ((Res (fst (normalizeStage h w r s)))
            \<lparr>Status := (if Status (Res (fst (normalizeStage h w r s))) < 400 then 500
                        else Status (Res (fst (normalizeStage h w r s)))),
             Body := Error e\<rparr>)]"
  have 1: "request_calls h hookOf respond w r s =
       Acquire # Rebind (Some w) (Some r) # ?mid @ [Rebind None None, Release ctxR]"
    unfolding rc by simp
  have 2: "acquires_of (request_calls h hookOf respond w r s) = 1"
    unfolding rc by (simp add: of_simps)
  have 3: "released_of (request_calls h hookOf respond w r s) = [ctxR]"
    unfolding rc by (simp add: of_simps)
  have 4: "fst (pool_Get (ServeHTTP h hookOf respond w r s)) = ctxR"
    by (simp add: pool_Get_def p(1))
  show ?thesis using 1 2 3 4 p by blast
qed


lemma toServeHandler_empty:
  "middleware g = [] \<Longrightarrow> toServeHandler g = Inl (Panic (NewAppError ''no middleware''))"
  by (simp add: toServeHandler_def)

lemma toServeHandler_nonempty:
  "middleware g \<noteq> [] \<Longrightarrow> toServeHandler g = Inr \<lparr>app = g, h_middleware = middleware g\<rparr>"
  by (simp add: toServeHandler_def)

text \<open>
  Claim C8. With no middleware registered, \<open>Listen\<close>, \<open>ListenTLS\<close> and \<open>Start\<close>
  each panic with the application error "no middleware", whatever the transport would
  do, and \<open>Start\<close> makes no call to \<open>net.Listen\<close>. With at least one middleware,
  \<open>Listen\<close> and \<open>ListenTLS\<close> install the handler and return what the transport
  returns, and \<open>Start\<close> does not panic with that error.
\<close>

theorem C8_empty_chain_panics:
  "(middleware g = [] \<longrightarrow>
      Listen g srv addr las = Inl (Panic (NewAppError ''no middleware''))
      \<and> ListenTLS g srv addr certFile keyFile lastls = Inl (Panic (NewAppError ''no middleware''))
      \<and> Start g srv addrs nl serve = (Inl (Panic (NewAppError ''no middleware'')), []))
   \<and> (middleware g \<noteq> [] \<longrightarrow>
      (\<exists>srv'. Listen g srv addr las = Inr (srv', las srv')
          \<and> Handler srv' = Some \<lparr>app = g, h_middleware = middleware g\<rparr>)
      \<and> (\<exists>srv'. ListenTLS g srv addr certFile keyFile lastls = Inr (srv', lastls srv' certFile keyFile)
          \<and> Handler srv' = Some \<lparr>app = g, h_middleware = middleware g\<rparr>)
      \<and> fst (Start g srv addrs nl serve) \<noteq> Inl (Panic (NewAppError ''no middleware'')))"
proof (intro conjI impI)
  assume e: "middleware g = []"
  show "Listen g srv addr las = Inl (Panic (NewAppError ''no middleware''))"
    by (simp add: Listen_def toServeHandler_empty[OF e])
  show "ListenTLS g srv addr certFile keyFile lastls = Inl (Panic (NewAppError ''no middleware''))"
    by (simp add: ListenTLS_def toServeHandler_empty[OF e])
  show "Start g srv addrs nl serve = (Inl (Panic (NewAppError ''no middleware'')), [])"
    by (simp add: Start_def toServeHandler_empty[OF e])
next
  assume ne: "middleware g \<noteq> []"
  show "\<exists>srv'. Listen g srv addr las = Inr (srv', las srv')
          \<and> Handler srv' = Some \<lparr>app = g, h_middleware = middleware g\<rparr>"
    by (simp add: Listen_def toServeHandler_nonempty[OF ne] Let_def)
  show "\<exists>srv'. ListenTLS g srv addr certFile keyFile lastls = Inr (srv', lastls srv' certFile keyFile)
          \<and> Handler srv' = Some \<lparr>app = g, h_middleware = middleware g\<rparr>"
    by (simp add: ListenTLS_def toServeHandler_nonempty[OF ne] Let_def)
  show "fst (Start g srv addrs nl serve) \<noteq> Inl (Panic (NewAppError ''no middleware''))"
    by (simp add: Start_def toServeHandler_nonempty[OF ne] Let_def NewAppError_def split: sum.splits)
qed

theorem C8_witness:
  "middleware (New :: (nat, nat) Gear) = []
   \<and> Listen New server0 '':3000'' (\<lambda>srv. None) = Inl (Panic (errorString ''[Gear] no middleware''))
   \<and> ListenTLS New server0 '':3000'' ''cert.pem'' ''key.pem'' (\<lambda>srv c k. None)
       = Inl (Panic (errorString ''[Gear] no middleware''))
   \<and> Start New server0 [] listen_ok serve_closed
       = (Inl (Panic (errorString ''[Gear] no middleware'')), [])
   \<and> middleware (Use unit_next New) \<noteq> []
   \<and> Listen (Use unit_next New) server0 '':3000'' (\<lambda>srv. None)
       \<noteq> Inl (Panic (errorString ''[Gear] no middleware''))
   \<and> ListenTLS (Use unit_next New) server0 '':3000'' ''cert.pem'' ''key.pem'' (\<lambda>srv c k. None)
       \<noteq> Inl (Panic (errorString ''[Gear] no middleware''))
   \<and> fst (Start (Use unit_next New) server0 [] listen_fail serve_closed)
       \<noteq> Inl (Panic (errorString ''[Gear] no middleware''))"
proof -
  have a: "middleware (New :: (nat, nat) Gear) = []"
    and b: "middleware (Use unit_next New) \<noteq> []"
    by (simp_all add: New_def Use_def)
  from C8_empty_chain_panics[of New server0 "'':3000''" "\<lambda>srv. None" "''cert.pem''" "''key.pem''"
      "\<lambda>srv c k. None" "[]" listen_ok serve_closed]
    C8_empty_chain_panics[of "Use unit_next New" server0 "'':3000''" "\<lambda>srv. None" "''cert.pem''"
      "''key.pem''" "\<lambda>srv c k. None" "[]" listen_fail serve_closed] a b
  show ?thesis by (auto simp: NewAppError_def)
qed

text \<open>
  Claim C9. \<open>Start\<close> listens on \<open>127.0.0.1:0\<close> when no address is given or the first
  one is empty. With a middleware registered it calls \<open>net.Listen\<close> once, on that
  address over tcp (with none it panics before, see C8). When \<open>net.Listen\<close> fails on
  the address, \<open>Start\<close> panics instead of returning. When it succeeds, \<open>Start\<close>
  returns a handle whose \<open>Addr\<close> and \<open>Close\<close> are the listener's and whose \<open>Wait\<close>
  yields the result of \<open>Serve\<close>; and every handle \<open>Start\<close> returns is of that kind.
\<close>

theorem C9_start_binds_or_panics:
  "(addr = [] \<or> hd addr = '''' \<longrightarrow> laddr_of addr = ''127.0.0.1:0'')
   \<and> (middleware g \<noteq> [] \<longrightarrow> snd (Start g srv addr nl serve) = [(''tcp'', laddr_of addr)])
   \<and> (middleware g = [] \<longrightarrow> snd (Start g srv addr nl serve) = [])
   \<and> (nl ''tcp'' (laddr_of addr) = Inl err \<longrightarrow>
        fst (Start g srv addr nl serve) =
          Inl (Panic (if middleware g = [] then NewAppError ''no middleware''
             else NewAppError (''failed to listen on '' @ laddr_of addr @ '': '' @ Error err))))
   \<and> (middleware g \<noteq> [] \<and> nl ''tcp'' (laddr_of addr) = Inr lis \<longrightarrow>
        (\<exists>srv' sl. fst (Start g srv addr nl serve) = Inr (srv', sl)
           \<and> Addr_of sl = lis_Addr lis \<and> Close sl = lis_Close lis \<and> Wait sl = serve srv' lis))
   \<and> (fst (Start g srv addr nl serve) = Inr (srv', sl) \<longrightarrow>
        (\<exists>lis. nl ''tcp'' (laddr_of addr) = Inr lis
           \<and> Addr_of sl = lis_Addr lis \<and> Close sl = lis_Close lis \<and> Wait sl = serve srv' lis))"
proof (intro conjI impI)
  assume "addr = [] \<or> hd addr = ''''"
  then show "laddr_of addr = ''127.0.0.1:0''" by (auto simp: laddr_of_def)
next
  assume ne: "middleware g \<noteq> []"
  show "snd (Start g srv addr nl serve) = [(''tcp'', laddr_of addr)]"
    by (simp add: Start_def toServeHandler_nonempty[OF ne] Let_def split: sum.splits)
next
  assume e: "middleware g = []"
  show "snd (Start g srv addr nl serve) = []"
    by (simp add: Start_def toServeHandler_empty[OF e])
next
  assume f: "nl ''tcp'' (laddr_of addr) = Inl err"
  show "fst (Start g srv addr nl serve) =
          Inl (Panic (if middleware g = [] then NewAppError ''no middleware''
             else NewAppError (''failed to listen on '' @ laddr_of addr @ '': '' @ Error err)))"
    using f by (simp add: Start_def toServeHandler_def Let_def)
next
  assume "middleware g \<noteq> [] \<and> nl ''tcp'' (laddr_of addr) = Inr lis"
  then show "\<exists>srv' sl. fst (Start g srv addr nl serve) = Inr (srv', sl)
           \<and> Addr_of sl = lis_Addr lis \<and> Close sl = lis_Close lis \<and> Wait sl = serve srv' lis"
    by (simp add: Start_def toServeHandler_def Let_def Addr_of_def Close_def Wait_def)
next
  assume s: "fst (Start g srv addr nl serve) = Inr (srv', sl)"
  then show "\<exists>lis. nl ''tcp'' (laddr_of addr) = Inr lis
           \<and> Addr_of sl = lis_Addr lis \<and> Close sl = lis_Close lis \<and> Wait sl = serve srv' lis"
    by (auto simp: Start_def toServeHandler_def Let_def Addr_of_def Close_def Wait_def
        split: if_splits sum.splits)
qed


theorem C9_witness:
  "(([]::string list) = [] \<or> hd ([]::string list) = '''')
   \<and> laddr_of [] = ''127.0.0.1:0''
   \<and> middleware (Use unit_next New) \<noteq> []
   \<and> snd (Start (Use unit_next New) server0 [] listen_ok serve_closed) = [(''tcp'', ''127.0.0.1:0'')]
   \<and> listen_fail ''tcp'' (laddr_of []) = Inl (errorString ''address already in use'')
   \<and> fst (Start (Use unit_next New) server0 [] listen_fail serve_closed)
       = Inl (Panic (errorString ''[Gear] failed to listen on 127.0.0.1:0: address already in use''))
   \<and> listen_ok ''tcp'' (laddr_of []) = Inr listener0
   \<and> (\<exists>srv' sl. fst (Start (Use unit_next New) server0 [] listen_ok serve_closed) = Inr (srv', sl)
        \<and> Addr_of sl = ''127.0.0.1:49152'' \<and> Close sl = None
        \<and> Wait sl = Some (errorString ''use of closed network connection''))"
proof -
  have a: "([]::string list) = [] \<or> hd ([]::string list) = ''''"
    and b: "middleware (Use unit_next New) \<noteq> []"
    and c: "listen_fail ''tcp'' (laddr_of []) = Inl (errorString ''address already in use'')"
    and d: "listen_ok ''tcp'' (laddr_of []) = Inr listener0"
    by (simp_all add: Use_def New_def listen_fail_def listen_ok_def laddr_of_def)
  note ok = C9_start_binds_or_panics[where addr = "[]" and g = "Use unit_next New"
      and srv = server0 and nl = listen_ok and serve = serve_closed and lis = listener0]
  note bad = C9_start_binds_or_panics[where addr = "[]" and g = "Use unit_next New"
      and srv = server0 and nl = listen_fail and serve = serve_closed
      and err = "errorString ''address already in use''"]
  have e: "laddr_of [] = ''127.0.0.1:0''" using ok a by blast
  have f: "snd (Start (Use unit_next New) server0 [] listen_ok serve_closed) = [(''tcp'', ''127.0.0.1:0'')]"
    using ok b e by simp
  have g: "fst (Start (Use unit_next New) server0 [] listen_fail serve_closed)
       = Inl (Panic (errorString ''[Gear] failed to listen on 127.0.0.1:0: address already in use''))"
    using bad b c e by (simp add: NewAppError_def)
  have h: "\<exists>srv' sl. fst (Start (Use unit_next New) server0 [] listen_ok serve_closed) = Inr (srv', sl)
        \<and> Addr_of sl = ''127.0.0.1:49152'' \<and> Close sl = None
        \<and> Wait sl = Some (errorString ''use of closed network connection'')"
    using ok b d by (simp add: listener0_def serve_closed_def)
  show ?thesis using a b c d e f g h by blast
qed

lemma runMiddleware_no_error:
  "\<forall>u \<in> set ms. \<forall>c. snd (u c) = None \<Longrightarrow> fst (snd (runMiddleware ms i ctx tr)) = None"
  by (induction ms arbitrary: i ctx tr) (simp_all add: case_prod_unfold)

lemma wrapped_returns_nil:
  "snd (WrapHandler hh ctx) = None" "snd (WrapHandlerFunc hh ctx) = None"
  by (simp_all add: WrapHandler_def WrapHandlerFunc_def)

text \<open>
  Claim C10. The middleware made by \<open>WrapHandler\<close> or \<open>WrapHandlerFunc\<close> returns nil
  on every Context. It stops the chain exactly when \<open>ended\<close> was already set or the
  handler leaves the response finished. A chain made of wrapped handlers only ends with
  no error, before and after normalization, and no error body is written.
\<close>

theorem C10_wrapped_handler_returns_nil:
  "snd (WrapHandler hh ctx) = None \<and> snd (WrapHandlerFunc hh ctx) = None
   \<and> (stops (WrapHandler hh) ctx \<longleftrightarrow> (ended ctx \<or> finished (hh (Res ctx) (Req ctx))))
   \<and> (stops (WrapHandlerFunc hh) ctx \<longleftrightarrow> (ended ctx \<or> finished (hh (Res ctx) (Req ctx))))
   \<and> ((\<forall>u \<in> set (h_middleware h). \<exists>k. u = WrapHandler k \<or> u = WrapHandlerFunc k) \<longrightarrow>
        fst (snd (chainStage h w r s)) = None
        \<and> fst (snd (normalizeStage h w r s)) = None
        \<and> bodies_of (request_calls h hookOf respond w r s) = [])"
proof (intro conjI impI)
  show "snd (WrapHandler hh ctx) = None" "snd (WrapHandlerFunc hh ctx) = None"
    by (rule wrapped_returns_nil)+
  show "stops (WrapHandler hh) ctx \<longleftrightarrow> (ended ctx \<or> finished (hh (Res ctx) (Req ctx)))"
    by (simp add: stops_def WrapHandler_def)
  show "stops (WrapHandlerFunc hh) ctx \<longleftrightarrow> (ended ctx \<or> finished (hh (Res ctx) (Req ctx)))"
    by (simp add: stops_def WrapHandlerFunc_def)
next
  assume all: "\<forall>u \<in> set (h_middleware h). \<exists>k. u = WrapHandler k \<or> u = WrapHandlerFunc k"
  have nil: "\<forall>u \<in> set (h_middleware h). \<forall>c. snd (u c) = None"
    using all wrapped_returns_nil by fastforce
  show c: "fst (snd (chainStage h w r s)) = None"
    using runMiddleware_no_error[OF nil]
    by (simp add: chainStage_def case_prod_unfold)
  show n: "fst (snd (normalizeStage h w r s)) = None"
    using c by (simp add: normalizeStage_def normalizeError_def case_prod_unfold)
  from request_calls_success[OF n, of hookOf respond]
  show "bodies_of (request_calls h hookOf respond w r s) = []"
    by (auto simp: of_simps)
qed

theorem C10_witness:
  "snd (WrapHandler handler_hello (bound_ctx 0 0 world0)) = None
   \<and> stops (WrapHandler handler_hello) (bound_ctx 0 0 world0)
   \<and> fst (snd (chainStage chain_wrapped 0 0 world0)) = None
   \<and> fst (snd (normalizeStage chain_wrapped 0 0 world0)) = None
   \<and> bodies_of (request_calls chain_wrapped plain_hooks respond_ok 0 0 world0) = []
   \<and> units_of (request_calls chain_wrapped plain_hooks respond_ok 0 0 world0) = [0, 1]
   \<and> map Body (flushed_of (request_calls chain_wrapped plain_hooks respond_ok 0 0 world0)) = [''hello'']"
proof -
  have a: "\<forall>u \<in> set (h_middleware chain_wrapped). \<exists>k. u = WrapHandler k \<or> u = WrapHandlerFunc k"
    by (auto simp: chain_wrapped_def handler_of_def Use_def New_def)
  have b: "finished (handler_hello (Res (bound_ctx 0 0 world0)) (Req (bound_ctx 0 0 world0)))"
    by (simp add: handler_hello_def)
  have c: "units_of (request_calls chain_wrapped plain_hooks respond_ok 0 0 world0) = [0, 1]"
    "map Body (flushed_of (request_calls chain_wrapped plain_hooks respond_ok 0 0 world0)) = [''hello'']"
    by (simp_all add: request_defs chain_wrapped_def handler_hello_def handler_idle_def engine_defs WrapHandler_def WrapHandlerFunc_def)
  from C10_wrapped_handler_returns_nil[of handler_hello "bound_ctx 0 0 world0" chain_wrapped
      0 0 world0 plain_hooks respond_ok] a b c
  show ?thesis by simp
qed

end
